theory Spec2Isabelle
  imports Main "HOL-Library.Sublist" "HOL-Library.Multiset"
begin

section \<open>The GO term fetcher (go_term_fetcher.py)\<close>

subsection \<open>Annotation records and the category table\<close>

text \<open>
  \<^verbatim>\<open>GO_CATEGORIES\<close> is a dictionary from category code to aspect name. A lookup of a code
  that is not a key is \<open>None\<close>, which is how \<^verbatim>\<open>category not in GO_CATEGORIES\<close> reads.
\<close>

definition GO_CATEGORIES :: "string \<rightharpoonup> string" where
  "GO_CATEGORIES = map_of
     [(''BP'', ''biological_process''),
      (''MF'', ''molecular_function''),
      (''CC'', ''cellular_component'')]"

text \<open>
  \<^verbatim>\<open>class Annotation(BaseModel)\<close>: twelve fields, each \<^verbatim>\<open>Optional[str] = None\<close>. The field
  \<^verbatim>\<open>id\<close> is written \<open>id'\<close>, since \<open>id\<close> is the identity function of HOL.
\<close>

record Annotation =
  id' :: "string option"
  geneProductId :: "string option"
  qualifier :: "string option"
  goId :: "string option"
  goAspect :: "string option"
  goEvidence :: "string option"
  goName :: "string option"
  assignedBy :: "string option"
  symbol :: "string option"
  synonyms :: "string option"
  name :: "string option"
  reference :: "string option"

subsection \<open>The category filter\<close>

text \<open>
  \<^verbatim>\<open>
  def filter_by_category(go_terms, category):
      if category not in GO_CATEGORIES:
          return go_terms
      return [t for t in go_terms if t.goAspect == GO_CATEGORIES[category]]
  \<close>
  The comparison \<^verbatim>\<open>t.goAspect == GO_CATEGORIES[category]\<close> is between an optional string
  and a string: an absent aspect (\<^verbatim>\<open>None\<close>) is unequal to every aspect name.
\<close>

definition filter_by_category :: "Annotation list \<Rightarrow> string \<Rightarrow> Annotation list" where
  "filter_by_category go_terms category =
     (case GO_CATEGORIES category of
        None \<Rightarrow> go_terms
      | Some aspect \<Rightarrow> [t \<leftarrow> go_terms. goAspect t = Some aspect])"

subsection \<open>Requests, replies and decoded JSON\<close>

text \<open>
  The query handed to \<^verbatim>\<open>client.get(url, params=params)\<close>: the endpoint and the parameter
  dictionary, whose values are a string and an integer.
\<close>

datatype param = PStr string | PInt int

record request =
  url :: string
  params :: "(string \<times> param) list"

text \<open>
  What \<^verbatim>\<open>resp.json()\<close> yields: the Python value of a JSON text. An object is the list of
  the items of the decoded dictionary in insertion order (its keys are distinct). The
  payload of a number is never inspected by the program.
\<close>

datatype json =
    JNull
  | JBool bool
  | JNum int
  | JStr string
  | JArr "json list"
  | JObj "(string \<times> json) list"

text \<open>
  The outcome of the GET: either no response arrives (connection failure or timeout of
  the HTTP client), or a response with a status code and a body. The body is \<open>None\<close>
  when it is not a JSON text.
\<close>

datatype reply = NoResponse | Response nat "json option"

datatype error =
    TransportError
  | HTTPStatusError nat
  | JSONDecodeError
  | KeyError string
  | TypeError
  | ValidationError

text \<open>\<^verbatim>\<open>resp.raise_for_status()\<close> raises unless the status code is a 2xx code.\<close>

definition is_success :: "nat \<Rightarrow> bool" where
  "is_success status_code = (200 \<le> status_code \<and> status_code \<le> 299)"

text \<open>
  \<^verbatim>\<open>data["results"]\<close>: a dictionary raises \<^verbatim>\<open>KeyError\<close> for a missing key; every other
  JSON value (list, string, number, boolean, null) raises \<^verbatim>\<open>TypeError\<close> for a string
  subscript.
\<close>

fun getitem :: "json \<Rightarrow> string \<Rightarrow> error + json" where
  "getitem (JObj kvs) k = (case map_of kvs k of None \<Rightarrow> Inl (KeyError k) | Some v \<Rightarrow> Inr v)"
| "getitem _ k = Inl TypeError"

text \<open>
  \<^verbatim>\<open>for d in data["results"]\<close>: a list yields its elements, a dictionary its keys, a
  string its characters as one-character strings; a number, a boolean and null are not
  iterable.
\<close>

fun iter :: "json \<Rightarrow> error + json list" where
  "iter (JArr xs) = Inr xs"
| "iter (JObj kvs) = Inr (map (\<lambda>kv. JStr (fst kv)) kvs)"
| "iter (JStr s) = Inr (map (\<lambda>c. JStr [c]) s)"
| "iter _ = Inl TypeError"

text \<open>
  \<^verbatim>\<open>Annotation(**d)\<close>. Unpacking with \<^verbatim>\<open>**\<close> needs a mapping, so anything but a dictionary
  raises \<^verbatim>\<open>TypeError\<close>. The model constructor then validates each declared field: a key
  that is missing takes the default \<^verbatim>\<open>None\<close>, null and strings are accepted, any other
  value fails validation; keys that are not declared fields are ignored.
\<close>

definition field_names :: "string list" where
  "field_names = [''id'', ''geneProductId'', ''qualifier'', ''goId'', ''goAspect'',
     ''goEvidence'', ''goName'', ''assignedBy'', ''symbol'', ''synonyms'', ''name'',
     ''reference'']"

fun valid_field :: "json option \<Rightarrow> bool" where
  "valid_field None = True"
| "valid_field (Some JNull) = True"
| "valid_field (Some (JStr s)) = True"
| "valid_field (Some _) = False"

fun field_value :: "json option \<Rightarrow> string option" where
  "field_value (Some (JStr s)) = Some s"
| "field_value _ = None"

fun Annotation_init :: "json \<Rightarrow> error + Annotation" where
  "Annotation_init (JObj kw) =
     (if \<forall>f \<in> set field_names. valid_field (map_of kw f) then
        Inr \<lparr>id' = field_value (map_of kw ''id''),
             geneProductId = field_value (map_of kw ''geneProductId''),
             qualifier = field_value (map_of kw ''qualifier''),
             goId = field_value (map_of kw ''goId''),
             goAspect = field_value (map_of kw ''goAspect''),
             goEvidence = field_value (map_of kw ''goEvidence''),
             goName = field_value (map_of kw ''goName''),
             assignedBy = field_value (map_of kw ''assignedBy''),
             symbol = field_value (map_of kw ''symbol''),
             synonyms = field_value (map_of kw ''synonyms''),
             name = field_value (map_of kw ''name''),
             reference = field_value (map_of kw ''reference'')\<rparr>
      else Inl ValidationError)"
| "Annotation_init _ = Inl TypeError"

text \<open>
  \<^verbatim>\<open>[Annotation(**d) for d in ...]\<close>: the elements are decoded in order and the first one
  that raises ends the comprehension with its exception.
\<close>

fun decode_all :: "json list \<Rightarrow> error + Annotation list" where
  "decode_all [] = Inr []"
| "decode_all (d # ds) =
     (case Annotation_init d of
        Inl e \<Rightarrow> Inl e
      | Inr a \<Rightarrow> (case decode_all ds of Inl e \<Rightarrow> Inl e | Inr as \<Rightarrow> Inr (a # as)))"

subsection \<open>The fetch\<close>

text \<open>
  \<^verbatim>\<open>
  async def fetch_go_terms(uniprot_id):
      url = "https://www.ebi.ac.uk/QuickGO/services/annotation/search"
      params = {"geneProductId": f"UniProtKB:{uniprot_id}", "limit": 100}
      async with httpx.AsyncClient() as client:
          resp = await client.get(url, params=params)
          resp.raise_for_status()
          data = resp.json()
          results = [Annotation(**d) for d in data["results"]]
          return results
  \<close>
  The first argument \<open>get\<close> is the network as this call sees it: the reply to the
  query it sends. The function returns what the caller receives (an exception or the
  annotation list) together with the list of the queries it has sent.
\<close>

abbreviation quickgo_query :: "string \<Rightarrow> request" where
  "quickgo_query uniprot_id \<equiv>
     \<lparr>url = ''https://www.ebi.ac.uk/QuickGO/services/annotation/search'',
      params = [(''geneProductId'', PStr (''UniProtKB:'' @ uniprot_id)),
                (''limit'', PInt 100)]\<rparr>"

definition fetch_go_terms ::
  "(request \<Rightarrow> reply) \<Rightarrow> string \<Rightarrow> (error + Annotation list) \<times> request list" where
  "fetch_go_terms get uniprot_id =
     (let rq = quickgo_query uniprot_id
      in (case get rq of
            NoResponse \<Rightarrow> Inl TransportError
          | Response status_code body \<Rightarrow>
              if \<not> is_success status_code then Inl (HTTPStatusError status_code)
              else (case body of
                      None \<Rightarrow> Inl JSONDecodeError
                    | Some data \<Rightarrow>
                        (case getitem data ''results'' of
                           Inl e \<Rightarrow> Inl e
                         | Inr r \<Rightarrow>
                             (case iter r of
                                Inl e \<Rightarrow> Inl e
                              | Inr ds \<Rightarrow> decode_all ds))),
          [rq]))"

section \<open>The service (service.py)\<close>

text \<open>
  The request and the result models. Both carry a \<^verbatim>\<open>$schema\<close> string (\<^verbatim>\<open>jschema\<close>);
  \<^verbatim>\<open>category\<close> is an optional string, \<^verbatim>\<open>results\<close> a dictionary from identifier to
  annotation list.
\<close>

record Request =
  jschema :: string
  ids :: "string list"
  category :: "string option"

record Result =
  jschema :: string
  results :: "string \<rightharpoonup> Annotation list"

text \<open>
  \<^verbatim>\<open>
  async def fetch_and_filter(uid):
      terms = await fetch_go_terms(uid)
      filtered = filter_by_category(terms, req.category) if req.category else terms
      results[uid] = filtered
  \<close>
  The part of the task that runs once the awaited fetch has delivered \<open>fetched\<close>:
  an exception passes through, a list is filtered when \<^verbatim>\<open>req.category\<close> is truthy
  (neither \<^verbatim>\<open>None\<close> nor the empty string) and stored under the task's identifier.
\<close>

fun fetch_and_filter ::
  "Request \<Rightarrow> error + Annotation list \<Rightarrow> string \<Rightarrow> (string \<rightharpoonup> Annotation list)
     \<Rightarrow> error + (string \<rightharpoonup> Annotation list)" where
  "fetch_and_filter req (Inl e) uid res = Inl e"
| "fetch_and_filter req (Inr terms) uid res =
     Inr (res(uid \<mapsto>
        (case category req of
           None \<Rightarrow> terms
         | Some c \<Rightarrow> if c = [] then terms else filter_by_category terms c)))"

text \<open>
  \<^verbatim>\<open>await asyncio.gather(*(fetch_and_filter(i) for i in req.ids))\<close>. One task per position
  of \<^verbatim>\<open>req.ids\<close>; \<open>fetched ! i\<close> is what the fetch of task \<open>i\<close> delivers and \<open>order\<close> is
  the order in which the fetches complete. The code after the \<^verbatim>\<open>await\<close> of a task runs
  without suspension, so the tasks write to \<^verbatim>\<open>results\<close> one after the other in
  completion order. The first exception is raised to the awaiting caller at once. An
  entry of \<open>order\<close> that names no task is skipped.
\<close>

fun gather ::
  "Request \<Rightarrow> (error + Annotation list) list \<Rightarrow> nat list \<Rightarrow> (string \<rightharpoonup> Annotation list)
     \<Rightarrow> error + (string \<rightharpoonup> Annotation list)" where
  "gather req fetched [] res = Inr res"
| "gather req fetched (i # order) res =
     (if i < length (ids req) \<and> i < length fetched then
        (case fetch_and_filter req (fetched ! i) (ids req ! i) res of
           Inl e \<Rightarrow> Inl e
         | Inr res' \<Rightarrow> gather req fetched order res')
      else gather req fetched order res)"

text \<open>
  A completion order is valid when every task completes exactly once.
\<close>

definition valid_order :: "string list \<Rightarrow> nat list \<Rightarrow> bool" where
  "valid_order uids order = (mset order = mset [0..<length uids])"

text \<open>
  \<^verbatim>\<open>
  async def map_go_terms(req):
      results = {}
      ...
      await asyncio.gather(*(fetch_and_filter(i) for i in req.ids))
      return Result(results=results)
  \<close>
  \<open>net i\<close> is the network as the fetch of task \<open>i\<close> sees it. Every task is started, in
  the order of \<^verbatim>\<open>req.ids\<close>, and sends its query before any reply is handled; the
  second component of the result lists the queries sent.
\<close>

definition map_go_terms ::
  "(nat \<Rightarrow> request \<Rightarrow> reply) \<Rightarrow> nat list \<Rightarrow> Request \<Rightarrow> (error + Result) \<times> request list" where
  "map_go_terms net order req =
     (let tasks = map (\<lambda>i. fetch_go_terms (net i) (ids req ! i)) [0..<length (ids req)]
      in (case gather req (map fst tasks) order Map.empty of
            Inl e \<Rightarrow> Inl e
          | Inr res \<Rightarrow>
              Inr \<lparr>jschema = ''urn:sd:schema.gene-ontology-term-mapper.1'', results = res\<rparr>,
          concat (map snd tasks)))"

section \<open>Sample inputs\<close>

text \<open>
  Concrete values at which the theorems below are instantiated. \<open>Annotation_default\<close>
  is \<^verbatim>\<open>Annotation()\<close>, the record with every field absent. \<open>answering r\<close> is a network
  that gives the reply \<open>r\<close> to every query, and under \<open>sample_net rs\<close> the fetch of
  task \<open>i\<close> receives the reply \<open>rs ! i\<close>. \<open>sample_object g a\<close> is the JSON object
  \<^verbatim>\<open>{"goId": g, "goAspect": a}\<close>, \<open>sample_annotation g a\<close> the record it decodes to, and
  \<open>sample_reply r\<close> the response \<^verbatim>\<open>200 {"results": r}\<close>.
\<close>

definition Annotation_default :: Annotation where
  "Annotation_default =
     \<lparr>id' = None, geneProductId = None, qualifier = None, goId = None, goAspect = None,
      goEvidence = None, goName = None, assignedBy = None, symbol = None, synonyms = None,
      name = None, reference = None\<rparr>"

definition answering :: "reply \<Rightarrow> request \<Rightarrow> reply" where
  "answering r rq = r"

definition sample_net :: "reply list \<Rightarrow> nat \<Rightarrow> request \<Rightarrow> reply" where
  "sample_net rs i rq = (if i < length rs then rs ! i else NoResponse)"

definition sample_object :: "string \<Rightarrow> string \<Rightarrow> json" where
  "sample_object g a = JObj [(''goId'', JStr g), (''goAspect'', JStr a)]"

definition sample_annotation :: "string \<Rightarrow> string \<Rightarrow> Annotation" where
  "sample_annotation g a = Annotation_default\<lparr>goId := Some g, goAspect := Some a\<rparr>"

definition sample_reply :: "json \<Rightarrow> reply" where
  "sample_reply r = Response 200 (Some (JObj [(''results'', r)]))"

section \<open>Properties of the category filter\<close>

lemma GO_CATEGORIES_dom: "dom GO_CATEGORIES = {''BP'', ''MF'', ''CC''}"
  by (auto simp: GO_CATEGORIES_def split: if_splits)

text \<open>
  Claim C2. For every annotation sequence and every category code outside
  \<open>{BP, MF, CC}\<close>, the filter returns its input unchanged.
\<close>

theorem filter_by_category_unrecognized:
  assumes "c \<notin> {''BP'', ''MF'', ''CC''}"
  shows "filter_by_category ts c = ts"
proof -
  have "c \<notin> dom GO_CATEGORIES"
    using assms unfolding GO_CATEGORIES_dom .
  then have "GO_CATEGORIES c = None"
    by blast
  then show ?thesis
    by (simp add: filter_by_category_def)
qed

theorem filter_by_category_unrecognized_witness:
  "''XX'' \<notin> {''BP'', ''MF'', ''CC''} \<and>
   filter_by_category
     [sample_annotation ''GO:0006103'' ''biological_process'', Annotation_default,
      sample_annotation ''GO:0005739'' ''cellular_component''] ''XX'' =
     [sample_annotation ''GO:0006103'' ''biological_process'', Annotation_default,
      sample_annotation ''GO:0005739'' ''cellular_component'']"
proof -
  have h: "''XX'' \<notin> {''BP'', ''MF'', ''CC''}" by simp
  show ?thesis
    using h filter_by_category_unrecognized [OF h] by simp
qed

lemma filter_by_category_Some:
  "GO_CATEGORIES c = Some a \<Longrightarrow> filter_by_category ts c = [t \<leftarrow> ts. goAspect t = Some a]"
  by (simp add: filter_by_category_def)

lemma GO_CATEGORIES_table:
  "(c, a) \<in> {(''BP'', ''biological_process''), (''MF'', ''molecular_function''),
              (''CC'', ''cellular_component'')} \<Longrightarrow> GO_CATEGORIES c = Some a"
  by (auto simp: GO_CATEGORIES_def)

text \<open>
  Claim C3. For a recognized code, paired here with the aspect name the table maps it
  to (\<open>BP\<close> with \<open>biological_process\<close> and so on), the output holds only records of that
  aspect, holds every such record of the input as often as the input does, and is a
  subsequence of the input, so that relative order is preserved.
\<close>

theorem filter_by_category_recognized:
  assumes "(c, a) \<in> {(''BP'', ''biological_process''), (''MF'', ''molecular_function''),
                      (''CC'', ''cellular_component'')}"
  shows "(\<forall>t \<in> set (filter_by_category ts c). goAspect t = Some a) \<and>
         (\<forall>t. goAspect t = Some a \<longrightarrow>
              count_list (filter_by_category ts c) t = count_list ts t) \<and>
         subseq (filter_by_category ts c) ts"
proof -
  have eq: "filter_by_category ts c = [t \<leftarrow> ts. goAspect t = Some a]"
    using assms by (intro filter_by_category_Some GO_CATEGORIES_table)
  have only: "\<forall>t \<in> set (filter_by_category ts c). goAspect t = Some a"
    by (simp add: eq)
  have every: "\<forall>t. goAspect t = Some a \<longrightarrow>
      count_list (filter_by_category ts c) t = count_list ts t"
    unfolding eq by (induction ts) auto
  have order: "subseq (filter_by_category ts c) ts"
    by (simp add: eq)
  from only every order show ?thesis
    by blast
qed

theorem filter_by_category_recognized_witness:
  "(''BP'', ''biological_process'') \<in> {(''BP'', ''biological_process''),
      (''MF'', ''molecular_function''), (''CC'', ''cellular_component'')} \<and>
   filter_by_category
     [sample_annotation ''GO:0006103'' ''biological_process'', Annotation_default,
      sample_annotation ''GO:0005739'' ''cellular_component'',
      sample_annotation ''GO:0006520'' ''biological_process''] ''BP'' =
     [sample_annotation ''GO:0006103'' ''biological_process'',
      sample_annotation ''GO:0006520'' ''biological_process''] \<and>
   subseq (filter_by_category
     [sample_annotation ''GO:0006103'' ''biological_process'', Annotation_default,
      sample_annotation ''GO:0005739'' ''cellular_component'',
      sample_annotation ''GO:0006520'' ''biological_process''] ''BP'')
     [sample_annotation ''GO:0006103'' ''biological_process'', Annotation_default,
      sample_annotation ''GO:0005739'' ''cellular_component'',
      sample_annotation ''GO:0006520'' ''biological_process'']"
proof -
  have h: "(''BP'', ''biological_process'') \<in> {(''BP'', ''biological_process''),
      (''MF'', ''molecular_function''), (''CC'', ''cellular_component'')}" by simp
  have v: "filter_by_category
     [sample_annotation ''GO:0006103'' ''biological_process'', Annotation_default,
      sample_annotation ''GO:0005739'' ''cellular_component'',
      sample_annotation ''GO:0006520'' ''biological_process''] ''BP'' =
     [sample_annotation ''GO:0006103'' ''biological_process'',
      sample_annotation ''GO:0006520'' ''biological_process'']"
    by (simp add: filter_by_category_def GO_CATEGORIES_def sample_annotation_def
        Annotation_default_def)
  show ?thesis
    using h v filter_by_category_recognized [OF h,
      of "[sample_annotation ''GO:0006103'' ''biological_process'', Annotation_default,
      sample_annotation ''GO:0005739'' ''cellular_component'',
      sample_annotation ''GO:0006520'' ''biological_process'']"]
    by blast
qed

text \<open>
  Claim C9. For a recognized code, a record whose \<open>goAspect\<close> is absent is not in the
  output: the filter drops it, and being a total function it does so without an error.
\<close>

theorem filter_by_category_drops_absent_aspect:
  assumes "c \<in> {''BP'', ''MF'', ''CC''}" and "goAspect t = None"
  shows "t \<notin> set (filter_by_category ts c)"
proof -
  have "c \<in> dom GO_CATEGORIES"
    using assms(1) unfolding GO_CATEGORIES_dom .
  then obtain a where "GO_CATEGORIES c = Some a"
    by blast
  then have "filter_by_category ts c = [t \<leftarrow> ts. goAspect t = Some a]"
    by (rule filter_by_category_Some)
  with assms(2) show ?thesis
    by simp
qed

theorem filter_by_category_drops_absent_aspect_witness:
  "''MF'' \<in> {''BP'', ''MF'', ''CC''} \<and> goAspect Annotation_default = None \<and>
   Annotation_default \<notin> set (filter_by_category
     [sample_annotation ''GO:0004069'' ''molecular_function'', Annotation_default] ''MF'')"
proof -
  have h1: "''MF'' \<in> {''BP'', ''MF'', ''CC''}" by simp
  have h2: "goAspect Annotation_default = None" by (simp add: Annotation_default_def)
  show ?thesis
    using h1 h2 filter_by_category_drops_absent_aspect [OF h1 h2] by blast
qed

text \<open>
  Claim C10. Filtering twice with the same category string, recognized or not, gives
  the same list as filtering once.
\<close>

theorem filter_by_category_idempotent:
  "filter_by_category (filter_by_category ts c) c = filter_by_category ts c"
  by (cases "GO_CATEGORIES c") (simp_all add: filter_by_category_def)

section \<open>Properties of the fetch\<close>

lemma Annotation_init_Inr_iff:
  "(\<exists>a. Annotation_init d = Inr a) \<longleftrightarrow>
   (\<exists>kw. d = JObj kw \<and> (\<forall>f \<in> set field_names. valid_field (map_of kw f)))"
  by (cases d) simp_all

lemma decode_all_Inr_iff:
  "(\<exists>as. decode_all ds = Inr as) \<longleftrightarrow> (\<forall>d \<in> set ds. \<exists>a. Annotation_init d = Inr a)"
proof (induction ds)
  case Nil
  show ?case by simp
next
  case (Cons d ds)
  show ?case
  proof (cases "Annotation_init d")
    case (Inl e)
    then show ?thesis by simp
  next
    case (Inr a)
    note a = this
    show ?thesis
    proof (cases "decode_all ds")
      case (Inl e)
      with a Cons.IH show ?thesis by auto
    next
      case (Inr as)
      with a Cons.IH show ?thesis by auto
    qed
  qed
qed

lemma fetch_go_terms_sent: "snd (fetch_go_terms get uid) = [quickgo_query uid]"
  by (simp add: fetch_go_terms_def Let_def)

lemma fetch_go_terms_Inr_iff:
  "(\<exists>ts. fst (fetch_go_terms get uid) = Inr ts) \<longleftrightarrow>
   (\<exists>sc kvs r ds. get (quickgo_query uid) = Response sc (Some (JObj kvs)) \<and> is_success sc \<and>
      map_of kvs ''results'' = Some r \<and> iter r = Inr ds \<and>
      (\<forall>d \<in> set ds. \<exists>kw. d = JObj kw \<and> (\<forall>f \<in> set field_names. valid_field (map_of kw f))))"
  (is "?L \<longleftrightarrow> ?R")
proof (cases "get (quickgo_query uid)")
  case NoResponse
  then show ?thesis by (simp add: fetch_go_terms_def Let_def)
next
  case (Response sc body)
  note resp = this
  show ?thesis
  proof (cases "is_success sc")
    case False
    with resp show ?thesis by (simp add: fetch_go_terms_def Let_def)
  next
    case True
    note ok = this
    show ?thesis
    proof (cases body)
      case None
      with resp ok show ?thesis by (simp add: fetch_go_terms_def Let_def)
    next
      case (Some data)
      note body = this
      show ?thesis
      proof (cases "getitem data ''results''")
        case (Inl e)
        then have "\<not> (\<exists>kvs r. data = JObj kvs \<and> map_of kvs ''results'' = Some r)"
          by (cases data) (auto split: option.splits)
        with resp ok body Inl show ?thesis by (auto simp: fetch_go_terms_def Let_def)
      next
        case (Inr r)
        then obtain kvs where data: "data = JObj kvs" and r: "map_of kvs ''results'' = Some r"
          by (cases data) (auto split: option.splits)
        show ?thesis
        proof (cases "iter r")
          case (Inl e)
          with resp ok body data r show ?thesis by (auto simp: fetch_go_terms_def Let_def)
        next
          case (Inr ds)
          have "?L \<longleftrightarrow> (\<exists>as. decode_all ds = Inr as)"
            using resp ok body data r Inr by (simp add: fetch_go_terms_def Let_def)
          also have "\<dots> \<longleftrightarrow> (\<forall>d \<in> set ds. \<exists>kw. d = JObj kw \<and>
              (\<forall>f \<in> set field_names. valid_field (map_of kw f)))"
            by (simp only: decode_all_Inr_iff Annotation_init_Inr_iff)
          also have "\<dots> \<longleftrightarrow> ?R"
            using resp ok body data r Inr by auto
          finally show ?thesis .
        qed
      qed
    qed
  qed
qed

lemma fetch_status: "get (quickgo_query uid) = Response sc body \<Longrightarrow> \<not> is_success sc
  \<Longrightarrow> fst (fetch_go_terms get uid) = Inl (HTTPStatusError sc)"
  by (simp add: fetch_go_terms_def Let_def)

lemma fetch_unparseable: "get (quickgo_query uid) = Response sc None \<Longrightarrow> is_success sc
  \<Longrightarrow> fst (fetch_go_terms get uid) = Inl JSONDecodeError"
  by (simp add: fetch_go_terms_def Let_def)

lemma fetch_missing_key: "get (quickgo_query uid) = Response sc (Some (JObj kvs)) \<Longrightarrow> is_success sc
  \<Longrightarrow> map_of kvs ''results'' = None
  \<Longrightarrow> fst (fetch_go_terms get uid) = Inl (KeyError ''results'')"
  by (simp add: fetch_go_terms_def Let_def)

lemma sample_object_init: "Annotation_init (sample_object g a) = Inr (sample_annotation g a)"
  by (simp add: sample_object_def sample_annotation_def Annotation_default_def field_names_def)


lemma fetch_go_terms_sample:
  "fetch_go_terms (answering (sample_reply (JArr (map (\<lambda>g. sample_object g a) gs)))) uid =
     (Inr (map (\<lambda>g. sample_annotation g a) gs), [quickgo_query uid])"
proof -
  have "decode_all (map (\<lambda>g. sample_object g a) gs) = Inr (map (\<lambda>g. sample_annotation g a) gs)"
    by (induction gs) (simp_all add: sample_object_init)
  then show ?thesis
    by (simp add: fetch_go_terms_def Let_def answering_def sample_reply_def is_success_def)
qed

text \<open>
  Claim C7, amended. The fetch sends exactly one query, whatever the reply. It fails with
  the status error on a non-success status, with the decoding error on a body that is
  not JSON, and with a key error on a JSON object without the key \<open>results\<close>. These
  are not its only failures: it returns an annotation list exactly when the status is
  a success, the body is a JSON object with the key \<open>results\<close>, the value under that
  key can be iterated, and every element it yields is an object whose declared
  annotation fields are each missing, null or a string.
\<close>

theorem fetch_go_terms_failure_cases:
  "snd (fetch_go_terms get uid) = [quickgo_query uid] \<and>
   (get (quickgo_query uid) = Response sc body \<and> \<not> is_success sc \<longrightarrow>
      fst (fetch_go_terms get uid) = Inl (HTTPStatusError sc)) \<and>
   (get (quickgo_query uid) = Response sc None \<and> is_success sc \<longrightarrow>
      fst (fetch_go_terms get uid) = Inl JSONDecodeError) \<and>
   (get (quickgo_query uid) = Response sc (Some (JObj kvs)) \<and> is_success sc \<and>
      map_of kvs ''results'' = None \<longrightarrow>
      fst (fetch_go_terms get uid) = Inl (KeyError ''results'')) \<and>
   ((\<exists>ts. fst (fetch_go_terms get uid) = Inr ts) \<longleftrightarrow>
      (\<exists>sc kvs r ds. get (quickgo_query uid) = Response sc (Some (JObj kvs)) \<and> is_success sc \<and>
         map_of kvs ''results'' = Some r \<and> iter r = Inr ds \<and>
         (\<forall>d \<in> set ds. \<exists>kw. d = JObj kw \<and>
            (\<forall>f \<in> set field_names. valid_field (map_of kw f)))))"
  using fetch_go_terms_sent [of get uid] fetch_status [of get uid sc body]
    fetch_unparseable [of get uid sc] fetch_missing_key [of get uid sc kvs]
    fetch_go_terms_Inr_iff [of get uid]
  by blast

theorem fetch_go_terms_failure_cases_witness:
  "answering (Response 500 None) (quickgo_query ''P12345'') = Response 500 None \<and>
   \<not> is_success 500 \<and>
   fst (fetch_go_terms (answering (Response 500 None)) ''P12345'') = Inl (HTTPStatusError 500) \<and>
   answering (Response 200 None) (quickgo_query ''P12345'') = Response 200 None \<and>
   is_success 200 \<and>
   fst (fetch_go_terms (answering (Response 200 None)) ''P12345'') = Inl JSONDecodeError \<and>
   answering (Response 200 (Some (JObj [(''messages'', JArr [])]))) (quickgo_query ''P12345'') =
     Response 200 (Some (JObj [(''messages'', JArr [])])) \<and>
   map_of [(''messages'', JArr [])] ''results'' = None \<and>
   fst (fetch_go_terms (answering (Response 200 (Some (JObj [(''messages'', JArr [])]))))
     ''P12345'') = Inl (KeyError ''results'') \<and>
   snd (fetch_go_terms (answering (Response 500 None)) ''P12345'') = [quickgo_query ''P12345'']"
  using
    fetch_go_terms_failure_cases [of "answering (Response 500 None)" "''P12345''" 500 None]
    fetch_go_terms_failure_cases [of "answering (Response 200 None)" "''P12345''" 200]
    fetch_go_terms_failure_cases [of "answering (Response 200 (Some (JObj [(''messages'', JArr [])])))"
      "''P12345''" 200 _ "[(''messages'', JArr [])]"]
  by (simp add: answering_def is_success_def)

text \<open>
  The claim as stated fails at a success response whose body is \<^verbatim>\<open>{"results": 5}\<close>: the
  body is JSON and has the key, yet the comprehension cannot iterate the number.
\<close>

theorem fetch_go_terms_failure_counterexample:
  "answering (sample_reply (JNum 5)) (quickgo_query ''P12345'') =
     Response 200 (Some (JObj [(''results'', JNum 5)])) \<and>
   is_success 200 \<and>
   map_of [(''results'', JNum 5)] ''results'' = Some (JNum 5) \<and>
   fst (fetch_go_terms (answering (sample_reply (JNum 5))) ''P12345'') = Inl TypeError"
  by (simp add: fetch_go_terms_def Let_def answering_def sample_reply_def is_success_def)

text \<open>
  Claim C8. For every identifier string, and whatever the network does, the fetch sends
  one query to the search endpoint, with \<open>geneProductId\<close> set to \<open>UniProtKB:\<close> followed by
  the identifier as given, and \<open>limit\<close> set to 100.
\<close>

theorem fetch_go_terms_query:
  "snd (fetch_go_terms get uid) =
     [\<lparr>url = ''https://www.ebi.ac.uk/QuickGO/services/annotation/search'',
       params = [(''geneProductId'', PStr (''UniProtKB:'' @ uid)), (''limit'', PInt 100)]\<rparr>]"
  by (simp add: fetch_go_terms_def Let_def)

section \<open>Properties of the service\<close>

lemma gather_Inl:
  "i \<in> set order \<Longrightarrow> i < length (ids req) \<Longrightarrow> i < length fetched \<Longrightarrow> fetched ! i = Inl e
    \<Longrightarrow> \<exists>e'. gather req fetched order res = Inl e'"
proof (induction order arbitrary: res)
  case Nil
  then show ?case by simp
next
  case (Cons j order)
  show ?case
  proof (cases "j < length (ids req) \<and> j < length fetched")
    case False
    with Cons show ?thesis by auto
  next
    case True
    show ?thesis
    proof (cases "fetched ! j")
      case (Inl e0)
      with True show ?thesis by simp
    next
      case (Inr terms)
      with Cons True have "i \<in> set order" by auto
      from Cons.IH [OF this Cons.prems(2,3,4)] Inr True show ?thesis by simp
    qed
  qed
qed

lemma gather_no_ids: "ids req = [] \<Longrightarrow> gather req fetched order res = Inr res"
  by (induction order arbitrary: res) simp_all

lemma two_orders:
  assumes "valid_order [a, b] order"
  shows "order = [0, 1] \<or> order = [1, 0]"
proof -
  have m: "mset order = {#0, 1#}"
    using assms by (simp add: valid_order_def upt_rec)
  then have "length order = 2"
    by (metis mset_eq_length length_Cons list.size(3) mset.simps(1,2) numeral_2_eq_2 add_mset_commute)
  then obtain x y where o: "order = [x, y]"
    by (metis length_0_conv length_Suc_conv numeral_2_eq_2)
  with m have "{#x, y#} = {#0, 1::nat#}"
    by (simp add: add_mset_commute)
  then have "(x = 0 \<and> y = 1) \<or> (x = 1 \<and> y = 0)"
    by (auto simp: add_eq_conv_ex)
  with o show ?thesis by auto
qed

lemma valid_order_mem: "valid_order uids order \<Longrightarrow> i < length uids \<Longrightarrow> i \<in> set order"
  unfolding valid_order_def by (drule mset_eq_setD) simp

lemma sample_net_nth: "i < length rs \<Longrightarrow> sample_net rs i = answering (rs ! i)"
  by (auto simp: fun_eq_iff sample_net_def answering_def)

lemma fetch_go_terms_status_sample:
  "\<not> is_success sc \<Longrightarrow> fetch_go_terms (answering (Response sc body)) uid =
     (Inl (HTTPStatusError sc), [quickgo_query uid])"
  by (simp add: fetch_go_terms_def Let_def answering_def)

text \<open>
  Claim C1. Let every task complete once, in any order. If the fetch of one position of
  the identifier list fails, the whole operation fails: the caller receives an
  exception and no result, so no mapping with the results of the other identifiers.
\<close>

theorem map_go_terms_fails_if_a_fetch_fails:
  assumes "valid_order (ids req) order"
      and "i < length (ids req)"
      and "fst (fetch_go_terms (net i) (ids req ! i)) = Inl e"
  shows "\<exists>e'. fst (map_go_terms net order req) = Inl e'"
proof -
  let ?fetched = "map fst (map (\<lambda>i. fetch_go_terms (net i) (ids req ! i)) [0..<length (ids req)])"
  have mem: "i \<in> set order"
    using assms(1,2) by (rule valid_order_mem)
  have len: "i < length ?fetched"
    using assms(2) by simp
  have "?fetched ! i = Inl e"
    using assms(2,3) by simp
  from gather_Inl [OF mem assms(2) len this]
  obtain e' where "gather req ?fetched order Map.empty = Inl e'"
    by blast
  then have "fst (map_go_terms net order req) = Inl e'"
    by (simp add: map_go_terms_def Let_def)
  then show ?thesis ..
qed

theorem map_go_terms_fails_if_a_fetch_fails_witness:
  "valid_order [''P12345'', ''Q9H0H5''] [0, 1] \<and>
   (1::nat) < length [''P12345'', ''Q9H0H5''] \<and>
   fst (fetch_go_terms
     (sample_net [sample_reply (JArr [sample_object ''GO:0006103'' ''biological_process'']),
                  Response 500 None] 1) ''Q9H0H5'') = Inl (HTTPStatusError 500) \<and>
   (\<exists>e'. fst (map_go_terms
     (sample_net [sample_reply (JArr [sample_object ''GO:0006103'' ''biological_process'']),
                  Response 500 None])
     [0, 1]
     \<lparr>Request.jschema = ''urn:sd:schema.gene-ontology-term-mapper.request.1'',
      ids = [''P12345'', ''Q9H0H5''], category = Some ''BP''\<rparr>) = Inl e')"
proof -
  let ?net = "sample_net [sample_reply (JArr [sample_object ''GO:0006103'' ''biological_process'']),
                  Response 500 None]"
  let ?req = "\<lparr>Request.jschema = ''urn:sd:schema.gene-ontology-term-mapper.request.1'',
      ids = [''P12345'', ''Q9H0H5''], category = Some ''BP''\<rparr>"
  have h1: "valid_order (ids ?req) [0, 1]"
    by (simp add: valid_order_def upt_rec)
  have h2: "(1::nat) < length (ids ?req)"
    by simp
  have h3: "fst (fetch_go_terms (?net 1) (ids ?req ! 1)) = Inl (HTTPStatusError 500)"
    by (simp add: sample_net_nth fetch_go_terms_status_sample is_success_def)
  show ?thesis
    using h1 h2 h3 map_go_terms_fails_if_a_fetch_fails [where net = ?net and i = 1 and req = ?req, OF h1 h2 h3]
    by simp
qed

text \<open>
  Claim C4. For every category, absent ones included, and every \<open>$schema\<close> string of
  the request, an empty identifier list gives a result with the empty mapping, and no
  query is sent.
\<close>

theorem map_go_terms_no_ids:
  "map_go_terms net order \<lparr>Request.jschema = s, ids = [], category = c\<rparr> =
     (Inr \<lparr>Result.jschema = ''urn:sd:schema.gene-ontology-term-mapper.1'', results = Map.empty\<rparr>, [])"
  by (simp add: map_go_terms_def gather_no_ids)

text \<open>
  Claim C5. For the identifier list \<open>[id1, id1]\<close> and no category, when both fetches
  succeed: two queries are sent, one per position, and the result mapping has the single
  key \<open>id1\<close>, whose value is the list delivered by the fetch that completes last (the
  one of position 0 if the completion order ends with 0, else the one of position 1).
\<close>

theorem map_go_terms_duplicate_ids:
  assumes "valid_order [id1, id1] order"
      and "fst (fetch_go_terms (net 0) id1) = Inr t0"
      and "fst (fetch_go_terms (net 1) id1) = Inr t1"
  shows "map_go_terms net order \<lparr>Request.jschema = s, ids = [id1, id1], category = None\<rparr> =
     (Inr \<lparr>Result.jschema = ''urn:sd:schema.gene-ontology-term-mapper.1'',
           results = [id1 \<mapsto> (if last order = 0 then t0 else t1)]\<rparr>,
      [quickgo_query id1, quickgo_query id1])"
proof -
  have up: "[0..<length [id1, id1]] = [0, 1]"
    by (simp add: upt_rec)
  have sent: "snd (fetch_go_terms (net 0) id1) = [quickgo_query id1]"
    "snd (fetch_go_terms (net 1) id1) = [quickgo_query id1]"
    by (rule fetch_go_terms_sent)+
  from two_orders [OF assms(1)] show ?thesis
  proof
    assume "order = [0, 1]"
    then show ?thesis
      using assms(2,3) sent by (simp add: map_go_terms_def Let_def up)
  next
    assume "order = [1, 0]"
    then show ?thesis
      using assms(2,3) sent by (simp add: map_go_terms_def Let_def up)
  qed
qed

theorem map_go_terms_duplicate_ids_witness:
  "valid_order [''P12345'', ''P12345''] [1, 0] \<and>
   fst (fetch_go_terms
     (sample_net [sample_reply (JArr [sample_object ''GO:0006103'' ''biological_process'']),
                  sample_reply (JArr [])] 0) ''P12345'') =
     Inr [sample_annotation ''GO:0006103'' ''biological_process''] \<and>
   fst (fetch_go_terms
     (sample_net [sample_reply (JArr [sample_object ''GO:0006103'' ''biological_process'']),
                  sample_reply (JArr [])] 1) ''P12345'') = Inr [] \<and>
   map_go_terms
     (sample_net [sample_reply (JArr [sample_object ''GO:0006103'' ''biological_process'']),
                  sample_reply (JArr [])])
     [1, 0]
     \<lparr>Request.jschema = ''urn:sd:schema.gene-ontology-term-mapper.request.1'',
      ids = [''P12345'', ''P12345''], category = None\<rparr> =
     (Inr \<lparr>Result.jschema = ''urn:sd:schema.gene-ontology-term-mapper.1'',
           results = [''P12345'' \<mapsto> [sample_annotation ''GO:0006103'' ''biological_process'']]\<rparr>,
      [quickgo_query ''P12345'', quickgo_query ''P12345''])"
proof -
  let ?net = "sample_net [sample_reply (JArr [sample_object ''GO:0006103'' ''biological_process'']),
                  sample_reply (JArr [])]"
  have h1: "valid_order [''P12345'', ''P12345''] [1, 0]"
    by (simp add: valid_order_def upt_rec)
  have h2: "fst (fetch_go_terms (?net 0) ''P12345'') =
      Inr [sample_annotation ''GO:0006103'' ''biological_process'']"
    using fetch_go_terms_sample [of "''biological_process''" "[''GO:0006103'']" "''P12345''"]
    by (simp add: sample_net_nth)
  have h3: "fst (fetch_go_terms (?net 1) ''P12345'') = Inr []"
    using fetch_go_terms_sample [of "''biological_process''" "[]" "''P12345''"]
    by (simp add: sample_net_nth)
  show ?thesis
    using h1 h2 h3 map_go_terms_duplicate_ids [where net = ?net, OF h1 h2 h3] by simp
qed

text \<open>
  Claim C6. For two distinct identifiers whose fetches deliver lists of 3 and of 5
  records and no category, the result mapping is the one that sends the first
  identifier to the 3 records and the second to the 5 records, in whichever order the
  two fetches complete.
\<close>

theorem map_go_terms_completion_order:
  assumes "id_a \<noteq> id_b"
      and "valid_order [id_a, id_b] order"
      and "fst (fetch_go_terms (net 0) id_a) = Inr ta"
      and "fst (fetch_go_terms (net 1) id_b) = Inr tb"
      and "length ta = 3" and "length tb = 5"
  shows "fst (map_go_terms net order \<lparr>Request.jschema = s, ids = [id_a, id_b], category = None\<rparr>) =
     Inr \<lparr>Result.jschema = ''urn:sd:schema.gene-ontology-term-mapper.1'',
          results = [id_a \<mapsto> ta, id_b \<mapsto> tb]\<rparr>"
proof -
  have up: "[0..<length [id_a, id_b]] = [0, 1]"
    by (simp add: upt_rec)
  from two_orders [OF assms(2)] show ?thesis
  proof
    assume "order = [0, 1]"
    then show ?thesis
      using assms(3,4) by (simp add: map_go_terms_def Let_def up)
  next
    assume "order = [1, 0]"
    moreover have "[id_b \<mapsto> tb, id_a \<mapsto> ta] = [id_a \<mapsto> ta, id_b \<mapsto> tb]"
      using assms(1) by (simp add: fun_upd_twist)
    ultimately show ?thesis
      using assms(3,4) by (simp add: map_go_terms_def Let_def up)
  qed
qed


theorem map_go_terms_completion_order_witness:
  "''P12345'' \<noteq> ''Q9H0H5'' \<and>
   valid_order [''P12345'', ''Q9H0H5''] [1, 0] \<and>
   fst (fetch_go_terms
     (sample_net
        [sample_reply (JArr (map (\<lambda>g. sample_object g ''biological_process'')
           [''GO:0006103'', ''GO:0006520'', ''GO:0006531''])),
         sample_reply (JArr (map (\<lambda>g. sample_object g ''molecular_function'')
           [''GO:0003677'', ''GO:0003723'', ''GO:0004069'', ''GO:0005515'', ''GO:0030170'']))]
        0) ''P12345'') =
     Inr (map (\<lambda>g. sample_annotation g ''biological_process'')
           [''GO:0006103'', ''GO:0006520'', ''GO:0006531'']) \<and>
   fst (fetch_go_terms
     (sample_net
        [sample_reply (JArr (map (\<lambda>g. sample_object g ''biological_process'')
           [''GO:0006103'', ''GO:0006520'', ''GO:0006531''])),
         sample_reply (JArr (map (\<lambda>g. sample_object g ''molecular_function'')
           [''GO:0003677'', ''GO:0003723'', ''GO:0004069'', ''GO:0005515'', ''GO:0030170'']))]
        1) ''Q9H0H5'') =
     Inr (map (\<lambda>g. sample_annotation g ''molecular_function'')
           [''GO:0003677'', ''GO:0003723'', ''GO:0004069'', ''GO:0005515'', ''GO:0030170'']) \<and>
   length (map (\<lambda>g. sample_annotation g ''biological_process'')
           [''GO:0006103'', ''GO:0006520'', ''GO:0006531'']) = 3 \<and>
   length (map (\<lambda>g. sample_annotation g ''molecular_function'')
           [''GO:0003677'', ''GO:0003723'', ''GO:0004069'', ''GO:0005515'', ''GO:0030170'']) = 5 \<and>
   fst (map_go_terms
     (sample_net
        [sample_reply (JArr (map (\<lambda>g. sample_object g ''biological_process'')
           [''GO:0006103'', ''GO:0006520'', ''GO:0006531''])),
         sample_reply (JArr (map (\<lambda>g. sample_object g ''molecular_function'')
           [''GO:0003677'', ''GO:0003723'', ''GO:0004069'', ''GO:0005515'', ''GO:0030170'']))])
     [1, 0]
     \<lparr>Request.jschema = ''urn:sd:schema.gene-ontology-term-mapper.request.1'',
      ids = [''P12345'', ''Q9H0H5''], category = None\<rparr>) =
     Inr \<lparr>Result.jschema = ''urn:sd:schema.gene-ontology-term-mapper.1'',
          results =
            [''P12345'' \<mapsto> map (\<lambda>g. sample_annotation g ''biological_process'')
               [''GO:0006103'', ''GO:0006520'', ''GO:0006531''],
             ''Q9H0H5'' \<mapsto> map (\<lambda>g. sample_annotation g ''molecular_function'')
               [''GO:0003677'', ''GO:0003723'', ''GO:0004069'', ''GO:0005515'', ''GO:0030170'']]\<rparr>"
proof -
  let ?ga = "[''GO:0006103'', ''GO:0006520'', ''GO:0006531'']"
  let ?gb = "[''GO:0003677'', ''GO:0003723'', ''GO:0004069'', ''GO:0005515'', ''GO:0030170'']"
  let ?net = "sample_net
        [sample_reply (JArr (map (\<lambda>g. sample_object g ''biological_process'') ?ga)),
         sample_reply (JArr (map (\<lambda>g. sample_object g ''molecular_function'') ?gb))]"
  let ?ta = "map (\<lambda>g. sample_annotation g ''biological_process'') ?ga"
  let ?tb = "map (\<lambda>g. sample_annotation g ''molecular_function'') ?gb"
  have h1: "''P12345'' \<noteq> ''Q9H0H5''"
    by simp
  have h2: "valid_order [''P12345'', ''Q9H0H5''] [1, 0]"
    by (simp add: valid_order_def upt_rec)
  have n0: "?net 0 = answering (sample_reply (JArr (map (\<lambda>g. sample_object g ''biological_process'') ?ga)))"
    by (subst sample_net_nth) simp_all
  have n1: "?net 1 = answering (sample_reply (JArr (map (\<lambda>g. sample_object g ''molecular_function'') ?gb)))"
    by (subst sample_net_nth) simp_all
  have h3: "fst (fetch_go_terms (?net 0) ''P12345'') = Inr ?ta"
    unfolding n0 by (simp only: fetch_go_terms_sample fst_conv)
  have h4: "fst (fetch_go_terms (?net 1) ''Q9H0H5'') = Inr ?tb"
    unfolding n1 by (simp only: fetch_go_terms_sample fst_conv)
  have h5: "length ?ta = 3" by simp
  have h6: "length ?tb = 5" by simp
  from h1 h2 h3 h4 h5 h6 map_go_terms_completion_order [where net = ?net, OF h1 h2 h3 h4 h5 h6]
  show ?thesis
    by (intro conjI)
qed

subsection \<open>Any number of identifiers\<close>

text \<open>
  The same facts for an identifier list of any length. One query is sent per position
  of the list, duplicates included. When every fetch succeeds, each key of the result
  holds the list of the task that completes last among the tasks of that identifier;
  so with distinct identifiers the result is the same for every completion order.
\<close>

lemma map_go_terms_sent: "snd (map_go_terms net order req) = map quickgo_query (ids req)"
proof -
  have "concat (map (\<lambda>i. [quickgo_query (ids req ! i)]) [0..<length (ids req)]) =
      map (\<lambda>i. quickgo_query (ids req ! i)) [0..<length (ids req)]"
    by (induction "[0..<length (ids req)]") (simp_all add: concat_map_singleton)
  also have "\<dots> = map quickgo_query (map (\<lambda>i. ids req ! i) [0..<length (ids req)])"
    by simp
  also have "\<dots> = map quickgo_query (ids req)"
    by (simp only: map_nth)
  finally show ?thesis
    by (simp add: map_go_terms_def Let_def fetch_go_terms_sent comp_def)
qed

lemma gather_all_succeed:
  assumes "\<And>i. i \<in> set order \<Longrightarrow> i < length (ids req) \<and> i < length fetched \<and> fetched ! i = Inr (ts i)"
  shows "gather req fetched order res =
     Inr (foldl (\<lambda>m i. m(ids req ! i \<mapsto>
        (case category req of None \<Rightarrow> ts i
         | Some c \<Rightarrow> if c = [] then ts i else filter_by_category (ts i) c))) res order)"
  using assms by (induction order arbitrary: res) simp_all

lemma foldl_upd_lookup:
  "foldl (\<lambda>m i. m(f i \<mapsto> g i)) res order k =
     (if [i \<leftarrow> order. f i = k] = [] then res k else Some (g (last [i \<leftarrow> order. f i = k])))"
  by (induction order rule: rev_induct) simp_all

lemma filter_eq_single:
  "distinct xs \<Longrightarrow> x \<in> set xs \<Longrightarrow> [j \<leftarrow> xs. j = x] = [x]"
  by (induction xs) (auto simp: filter_empty_conv)

lemma valid_order_set: "valid_order uids order \<Longrightarrow> set order = {0..<length uids}"
  unfolding valid_order_def by (drule mset_eq_setD) simp

lemma valid_order_distinct: "valid_order uids order \<Longrightarrow> distinct order"
  unfolding valid_order_def by (metis distinct_upt mset_eq_imp_distinct_iff)

lemma filter_task:
  assumes "distinct uids" and "valid_order uids order" and "i < length uids"
  shows "[j \<leftarrow> order. uids ! j = uids ! i] = [i]"
proof -
  have "[j \<leftarrow> order. uids ! j = uids ! i] = [j \<leftarrow> order. j = i]"
    using assms valid_order_set [OF assms(2)]
    by (intro filter_cong refl) (auto simp: nth_eq_iff_index_eq)
  also have "\<dots> = [i]"
    using assms valid_order_set [OF assms(2)] valid_order_distinct [OF assms(2)]
    by (intro filter_eq_single) auto
  finally show ?thesis .
qed

lemma map_go_terms_order_independent:
  assumes "distinct (ids req)"
      and "valid_order (ids req) order"
      and "\<And>i. i < length (ids req) \<Longrightarrow> fst (fetch_go_terms (net i) (ids req ! i)) = Inr (ts i)"
  shows "\<exists>res. fst (map_go_terms net order req) =
            Inr \<lparr>Result.jschema = ''urn:sd:schema.gene-ontology-term-mapper.1'', results = res\<rparr> \<and>
          dom res = set (ids req) \<and>
          (\<forall>i < length (ids req). res (ids req ! i) = Some
             (case category req of None \<Rightarrow> ts i
              | Some c \<Rightarrow> if c = [] then ts i else filter_by_category (ts i) c))"
proof -
  let ?n = "length (ids req)"
  let ?fetched = "map fst (map (\<lambda>i. fetch_go_terms (net i) (ids req ! i)) [0..<?n])"
  define v where "v = (\<lambda>i. case category req of None \<Rightarrow> ts i
              | Some c \<Rightarrow> if c = [] then ts i else filter_by_category (ts i) c)"
  define res where "res = foldl (\<lambda>m i. m(ids req ! i \<mapsto> v i)) Map.empty order"
  have "\<And>i. i \<in> set order \<Longrightarrow> i < ?n \<and> i < length ?fetched \<and> ?fetched ! i = Inr (ts i)"
    using valid_order_set [OF assms(2)] assms(3) by simp
  then have "gather req ?fetched order Map.empty = Inr res"
    unfolding res_def v_def by (rule gather_all_succeed)
  then have r: "fst (map_go_terms net order req) =
      Inr \<lparr>Result.jschema = ''urn:sd:schema.gene-ontology-term-mapper.1'', results = res\<rparr>"
    by (simp add: map_go_terms_def Let_def)
  have at: "res (ids req ! i) = Some (v i)" if "i < ?n" for i
    unfolding res_def foldl_upd_lookup [of "\<lambda>i. ids req ! i" v]
    using filter_task [OF assms(1,2) that] by simp
  have none: "res k = None" if "k \<notin> set (ids req)" for k
  proof -
    have "[i \<leftarrow> order. ids req ! i = k] = []"
      using that valid_order_set [OF assms(2)] by (auto simp: filter_empty_conv)
    then show ?thesis
      unfolding res_def foldl_upd_lookup [of "\<lambda>i. ids req ! i" v] by simp
  qed
  have "dom res = set (ids req)"
  proof (intro set_eqI iffI)
    fix k
    assume "k \<in> dom res"
    with none [of k] show "k \<in> set (ids req)"
      by (cases "k \<in> set (ids req)") auto
  next
    fix k
    assume "k \<in> set (ids req)"
    then obtain i where "i < ?n" and "ids req ! i = k"
      by (auto simp: in_set_conv_nth)
    with at [of i] show "k \<in> dom res"
      by auto
  qed
  with r at show ?thesis
    unfolding v_def by blast
qed


lemma map_go_terms_last_write:
  assumes "valid_order (ids req) order"
      and "\<And>i. i < length (ids req) \<Longrightarrow> fst (fetch_go_terms (net i) (ids req ! i)) = Inr (ts i)"
      and "k \<in> set (ids req)"
  shows "\<exists>res. fst (map_go_terms net order req) =
            Inr \<lparr>Result.jschema = ''urn:sd:schema.gene-ontology-term-mapper.1'', results = res\<rparr> \<and>
          res k = Some
            (case category req of None \<Rightarrow> ts (last [i \<leftarrow> order. ids req ! i = k])
             | Some c \<Rightarrow> if c = [] then ts (last [i \<leftarrow> order. ids req ! i = k])
                 else filter_by_category (ts (last [i \<leftarrow> order. ids req ! i = k])) c)"
proof -
  let ?n = "length (ids req)"
  let ?fetched = "map fst (map (\<lambda>i. fetch_go_terms (net i) (ids req ! i)) [0..<?n])"
  define v where "v = (\<lambda>i. case category req of None \<Rightarrow> ts i
              | Some c \<Rightarrow> if c = [] then ts i else filter_by_category (ts i) c)"
  define res where "res = foldl (\<lambda>m i. m(ids req ! i \<mapsto> v i)) Map.empty order"
  have "\<And>i. i \<in> set order \<Longrightarrow> i < ?n \<and> i < length ?fetched \<and> ?fetched ! i = Inr (ts i)"
    using valid_order_set [OF assms(1)] assms(2) by simp
  then have "gather req ?fetched order Map.empty = Inr res"
    unfolding res_def v_def by (rule gather_all_succeed)
  then have r: "fst (map_go_terms net order req) =
      Inr \<lparr>Result.jschema = ''urn:sd:schema.gene-ontology-term-mapper.1'', results = res\<rparr>"
    by (simp add: map_go_terms_def Let_def)
  from assms(3) obtain i where "i < ?n" and "ids req ! i = k"
    by (auto simp: in_set_conv_nth)
  then have "[i \<leftarrow> order. ids req ! i = k] \<noteq> []"
    using valid_order_set [OF assms(1)] by (auto simp: filter_empty_conv)
  then have "res k = Some (v (last [i \<leftarrow> order. ids req ! i = k]))"
    unfolding res_def foldl_upd_lookup [of "\<lambda>i. ids req ! i" v] by simp
  with r show ?thesis
    unfolding v_def by blast
qed

end
